theory Spec2Isabelle
  imports Complex_Main
begin

section \<open>Cancellation registry: \<open>ControllerPool\<close>\<close>

text \<open>
  The object \<open>ControllerPool\<close> is the same in all four iterations of the request module.
  An \<open>AbortController\<close> is an object with identity; it is modelled by a handle (a number
  naming the object) and the set of handles on which \<open>abort()\<close> has been called. The
  field \<open>controllers\<close> is a JavaScript object used as a dictionary from key strings to
  controllers: a partial map.
\<close>

type_synonym handle = nat

record pool =
  controllers :: "string \<rightharpoonup> handle"
  aborted :: "handle set"

text \<open>
  The template literal \<open>`${sessionIndex},${messageIndex}`\<close> prints both numbers in decimal,
  with a leading minus sign for a negative one. The two arguments are integers.
\<close>

fun show_nat :: "nat \<Rightarrow> string" where
  "show_nat n =
     (if n < 10 then [''0123456789'' ! n]
      else show_nat (n div 10) @ [''0123456789'' ! (n mod 10)])"

declare show_nat.simps [simp del]

definition show_int :: "int \<Rightarrow> string" where
  "show_int i = (if i < 0 then CHR ''-'' # show_nat (nat (- i)) else show_nat (nat i))"

definition key :: "int \<Rightarrow> int \<Rightarrow> string" where
  "key sessionIndex messageIndex = show_int sessionIndex @ '','' @ show_int messageIndex"

definition addController :: "int \<Rightarrow> int \<Rightarrow> handle \<Rightarrow> pool \<Rightarrow> string \<times> pool" where
  "addController sessionIndex messageId controller p =
     (let k = key sessionIndex messageId
      in (k, p\<lparr>controllers := (controllers p)(k \<mapsto> controller)\<rparr>))"

text \<open>
  \<open>controller?.abort()\<close>: the optional chaining skips the call when the lookup gives
  \<open>undefined\<close>. No key string of the form \<open>"c,m"\<close> names a property inherited from
  \<open>Object.prototype\<close>, so a lookup of an absent key is \<open>undefined\<close>.
\<close>

definition stop :: "int \<Rightarrow> int \<Rightarrow> pool \<Rightarrow> pool" where
  "stop sessionIndex messageId p =
     (let k = key sessionIndex messageId
      in case controllers p k of
           None \<Rightarrow> p
         | Some controller \<Rightarrow> p\<lparr>aborted := insert controller (aborted p)\<rparr>)"

definition stopAll :: "pool \<Rightarrow> pool" where
  "stopAll p = p\<lparr>aborted := aborted p \<union> ran (controllers p)\<rparr>"

definition hasPending :: "pool \<Rightarrow> bool" where
  "hasPending p = (dom (controllers p) \<noteq> {})"

definition remove_controller :: "int \<Rightarrow> int \<Rightarrow> pool \<Rightarrow> pool" where
  "remove_controller sessionIndex messageId p =
     (let k = key sessionIndex messageId
      in p\<lparr>controllers := (controllers p)(k := None)\<rparr>)"

section \<open>Data model\<close>

text \<open>
  The types \<open>Message\<close>, \<open>ChatSession\<close>, \<open>ModelConfig\<close> and \<open>SummaryLevel\<close> are imported
  from the store module; the records below carry the fields that the request module reads
  or writes. An optional field (\<open>summary?\<close>) is an \<open>option\<close>, \<open>None\<close> standing for
  \<open>undefined\<close>. A string is a list of characters, one for each unit that the JavaScript
  \<open>length\<close> counts; a number that the module only passes on or compares is an integer or
  a rational.
\<close>

datatype Role = System | User | Assistant

datatype SummaryLevel = Incremental | OtherLevel string

record Message =
  msg_id :: "int option"
  role :: Role
  content :: string
  date :: string
  summary :: "string option"
  useSummary :: "bool option"
  nTokens :: "int option"
  nSummaryTokens :: "int option"
  hidden :: "bool option"

record ModelConfig =
  model :: string
  temperature :: rat
  presence_penalty :: rat
  summaryLevel :: SummaryLevel
  compressMessageLengthThreshold :: int

text \<open>
  What the module reads from its surroundings: two constants of other modules
  (\<open>INCREMENTAL_SUMMARY_PREFIX\<close> and the locale string
  \<open>Locale.Store.Prompt.SummarizeIncremental\<close>) and the model configuration of the current
  session, \<open>useChatStore.getState().currentSession().mask.modelConfig\<close>. The spread
  \<open>{...useAppConfig.getState().modelConfig, ...currentSession().mask.modelConfig}\<close> of
  two complete \<open>ModelConfig\<close> objects takes every value from the second one.
\<close>

record Env =
  INCREMENTAL_SUMMARY_PREFIX :: string
  SummarizeIncremental :: string
  currentModelConfig :: ModelConfig

text \<open>An object literal \<open>{role, content, date}\<close> typed as a \<open>Message\<close>.\<close>

definition mkMessage :: "Role \<Rightarrow> string \<Rightarrow> string \<Rightarrow> Message" where
  "mkMessage r c d =
     \<lparr>msg_id = None, role = r, content = c, date = d, summary = None, useSummary = None,
      nTokens = None, nSummaryTokens = None, hidden = None\<rparr>"

text \<open>JavaScript truthiness of an optional string and of an optional boolean, and the
  text a template literal prints for an optional string.\<close>

definition truthy_string :: "string option \<Rightarrow> bool" where
  "truthy_string s = (case s of None \<Rightarrow> False | Some t \<Rightarrow> t \<noteq> [])"

definition truthy_bool :: "bool option \<Rightarrow> bool" where
  "truthy_bool b = (case b of None \<Rightarrow> False | Some v \<Rightarrow> v)"

definition template :: "string option \<Rightarrow> string" where
  "template s = (case s of None \<Rightarrow> ''undefined'' | Some t \<Rightarrow> t)"

definition or_empty :: "string option \<Rightarrow> string" where
  "or_empty s = (if truthy_string s then template s else [])"

section \<open>Request assembler: \<open>makeRequestParam\<close>\<close>

datatype OutMessage = OutMessage (out_role: Role) (out_content: string)

record ChatRequest =
  req_messages :: "OutMessage list"
  req_stream :: "bool option"
  req_model :: string
  req_temperature :: rat
  req_presence_penalty :: rat

record ParamOptions =
  stream :: "bool option"
  overrideModel :: "string option"
  overrideTemperature :: "rat option"
  overridePresencePenalty :: "rat option"

text \<open>
  The second half of \<open>makeRequestParam\<close>, the same text in the four iterations: the model
  configuration with the overrides that are given, and the returned object.
\<close>

definition withModelConfig :: "Env \<Rightarrow> OutMessage list \<Rightarrow> ParamOptions \<Rightarrow> ChatRequest" where
  "withModelConfig env sendMessages options =
     (let modelConfig = currentModelConfig env;
          modelConfig = (if truthy_string (overrideModel options)
                         then modelConfig\<lparr>model := template (overrideModel options)\<rparr>
                         else modelConfig);
          modelConfig = (case overrideTemperature options of
                           None \<Rightarrow> modelConfig
                         | Some t \<Rightarrow> modelConfig\<lparr>temperature := t\<rparr>);
          modelConfig = (case overridePresencePenalty options of
                           None \<Rightarrow> modelConfig
                         | Some pp \<Rightarrow> modelConfig\<lparr>presence_penalty := pp\<rparr>)
      in \<lparr>req_messages = sendMessages, req_stream = stream options,
          req_model = model modelConfig, req_temperature = temperature modelConfig,
          req_presence_penalty = presence_penalty modelConfig\<rparr>)"

text \<open>
  First iteration (part 000, and part 003 with the same text): the summary replaces the
  content when the session's level is \<open>Incremental\<close> and the summary is truthy. The
  flag \<open>useSummary\<close> is not read.
\<close>

definition makeRequestParam_p0 :: "Env \<Rightarrow> Message list \<Rightarrow> ParamOptions \<Rightarrow> ChatRequest" where
  "makeRequestParam_p0 env messages options =
     (let sendMessages =
            map (\<lambda>v. OutMessage (role v)
                   (if summaryLevel (currentModelConfig env) = Incremental \<and> truthy_string (summary v)
                    then INCREMENTAL_SUMMARY_PREFIX env @ '' '' @ template (summary v)
                    else content v))
                messages
      in withModelConfig env sendMessages options)"

text \<open>
  Iteration of part 001: the flag \<open>useSummary\<close> alone decides, and a fixed system
  message goes first.
\<close>

definition SWIFTY :: string where
  "SWIFTY = ''You are a Swifty! Answer any questions and conduct conversations carefully and to the point, addressing an intelligent teenager. But whenever possible, also insert a relevant(-ish) Taylor Swift quote or trivia (don't make these up). Ideally, the (relative) relevance of the quote/trivia, or the way you introduce it, should be sly, funny or ridiculous. BTW, you're favorite album is 1989, but you can change your mind as to your favorite song. And you hate Olivia Rodrigo - be funny about that too. Good luck!''"

definition makeRequestParam_p1 :: "Env \<Rightarrow> Message list \<Rightarrow> ParamOptions \<Rightarrow> ChatRequest" where
  "makeRequestParam_p1 env messages options =
     (let baseMessages =
            map (\<lambda>message. OutMessage (role message)
                   (if truthy_bool (useSummary message)
                    then INCREMENTAL_SUMMARY_PREFIX env @ '' '' @ template (summary message)
                    else content message))
                messages;
          sendMessages = OutMessage System SWIFTY # baseMessages
      in withModelConfig env sendMessages options)"

text \<open>
  Iteration of part 002: \<open>getMessageOrSummary\<close> decides through
  \<open>isMessageInSummaryMode\<close>, whose parameter \<open>checkFlag\<close> defaults to \<open>false\<close>; the
  assembler calls it without that argument. The \<open>session\<close> parameter of both functions
  is not read and is left out.
\<close>

definition isMessageInSummaryMode :: "Message \<Rightarrow> bool \<Rightarrow> bool" where
  "isMessageInSummaryMode message checkFlag =
     (truthy_string (summary message) \<and> (\<not> checkFlag \<or> truthy_bool (useSummary message)))"

definition getMessageOrSummary :: "Message \<Rightarrow> bool \<Rightarrow> Message \<times> bool" where
  "getMessageOrSummary message checkFlag =
     (let inSummaryMode = isMessageInSummaryMode message checkFlag
      in (mkMessage (role message)
            (or_empty (if inSummaryMode then summary message else Some (content message)))
            (date message),
          inSummaryMode))"

definition summaryIntro :: "Env \<Rightarrow> Message" where
  \<open>summaryIntro env =
     mkMessage System
       (''Note that any message prefixed by "'' @ INCREMENTAL_SUMMARY_PREFIX env @
        ''" has been previously summarized by you, so it does not appear in full or in the original form.'')
       []\<close>

definition makeRequestParam_p2 :: "Env \<Rightarrow> Message list \<Rightarrow> ParamOptions \<Rightarrow> ChatRequest" where
  "makeRequestParam_p2 env messages options =
     (let sendMessages =
            map (\<lambda>(message, inSummary). OutMessage (role message)
                   (if inSummary
                    then INCREMENTAL_SUMMARY_PREFIX env @ '' '' @ content message
                    else content message))
              (map (\<lambda>message. getMessageOrSummary message False) (summaryIntro env # messages))
      in withModelConfig env sendMessages options)"

section \<open>Non-streaming requests: \<open>requestChat\<close>\<close>

text \<open>
  An error value thrown or passed to a callback: an \<open>Error\<close> made by the module with its
  message, the abort error with which an aborted \<open>fetch\<close> or stream read is rejected, or
  any other error of the platform.
\<close>

datatype js_error = Error string | AbortError | PlatformError string

datatype 'a promise = Resolved 'a | Rejected js_error

text \<open>
  The parsed body of a reply, read by the module through
  \<open>response?.choices?.at(0)?.message?.content\<close> and \<open>response?.usage?.completion_tokens\<close>:
  the list holds, for each choice, the content of its message if there is one; an absent
  \<open>choices\<close> array reads like an empty one.
\<close>

record ChatResponse =
  choices :: "string option list"
  prompt_tokens :: "int option"
  completion_tokens :: "int option"

text \<open>
  What the network does with a request: \<open>fetch\<close> is rejected, or it is resolved with a
  reply whose body \<open>res.json()\<close> cannot parse, or with one it parses.
\<close>

datatype http_reply = NetworkFailure js_error | BodyNotJson | Json ChatResponse

record ChatOptions =
  opt_model :: "string option"
  opt_temperature :: "rat option"
  opt_presencePenalty :: "rat option"

text \<open>
  \<open>requestChat\<close> awaits \<open>fetch\<close> outside its \<open>try\<close> block, so a rejection of
  \<open>fetch\<close> rejects the promise it returns; a body that does not parse is caught and
  logged, and the promise is resolved with \<open>undefined\<close>. The function is modelled with
  the request it sends beside its promise.
\<close>

definition settle :: "(ChatRequest \<Rightarrow> http_reply) \<Rightarrow> ChatRequest \<Rightarrow> ChatResponse option promise" where
  "settle net req =
     (case net req of
        NetworkFailure e \<Rightarrow> Rejected e
      | BodyNotJson \<Rightarrow> Resolved None
      | Json response \<Rightarrow> Resolved (Some response))"

definition requestChat_p1 ::
  "Env \<Rightarrow> (ChatRequest \<Rightarrow> http_reply) \<Rightarrow> Message list \<Rightarrow> ChatOptions
     \<Rightarrow> ChatRequest \<times> ChatResponse option promise" where
  "requestChat_p1 env net messages options =
     (let req = makeRequestParam_p1 env messages
                  \<lparr>stream = Some False, overrideModel = opt_model options,
                   overrideTemperature = opt_temperature options,
                   overridePresencePenalty = opt_presencePenalty options\<rparr>
      in (req, settle net req))"

definition requestChat_p2 ::
  "Env \<Rightarrow> (ChatRequest \<Rightarrow> http_reply) \<Rightarrow> Message list \<Rightarrow> ChatOptions
     \<Rightarrow> ChatRequest \<times> ChatResponse option promise" where
  "requestChat_p2 env net messages options =
     (let req = makeRequestParam_p2 env messages
                  \<lparr>stream = Some False, overrideModel = opt_model options,
                   overrideTemperature = opt_temperature options,
                   overridePresencePenalty = opt_presencePenalty options\<rparr>
      in (req, settle net req))"

definition first_content :: "ChatResponse option \<Rightarrow> string option" where
  "first_content response =
     (case response of
        None \<Rightarrow> None
      | Some r \<Rightarrow> (case choices r of [] \<Rightarrow> None | c # _ \<Rightarrow> c))"

definition usage_completion_tokens :: "ChatResponse option \<Rightarrow> int option" where
  "usage_completion_tokens response =
     (case response of None \<Rightarrow> None | Some r \<Rightarrow> completion_tokens r)"

section \<open>Context compression: \<open>summarizeMessageIncrementally\<close>\<close>

text \<open>
  Messages are objects: \<open>session.messages.indexOf(message)\<close> compares references and the
  summary is written into the object that the caller and the session share. A message
  object is therefore a reference into a heap of message values, and a session holds
  references. The persistent context \<open>session.mask.context\<close> is only read.
\<close>

type_synonym ref = nat

type_synonym heap = "ref \<Rightarrow> Message"

record ChatSession =
  session_messages :: "ref list"
  mask_context :: "Message list"
  mask_modelConfig :: ModelConfig

fun indexOf :: "'a list \<Rightarrow> 'a \<Rightarrow> nat option" where
  "indexOf [] x = None"
| "indexOf (y # ys) x = (if y = x then Some 0 else map_option Suc (indexOf ys x))"

definition summaryOptions :: ChatOptions where
  "summaryOptions =
     \<lparr>opt_model = Some ''gpt-4'', opt_temperature = Some (7 / 10), opt_presencePenalty = Some 0\<rparr>"

text \<open>
  The run of a summarization: the requests it has sent, the promise it returns and the
  heap it leaves.
\<close>

record 'a SummarizeRun =
  issued :: "ChatRequest list"
  returned :: "'a promise"
  heap_after :: heap

text \<open>
  Iteration of part 002. Two gates come first (level, then length against the
  threshold), then the lookup of the target. The sub-conversation is the system messages
  of the context, the instruction, and every message of the session up to and including
  the target, each through \<open>getMessageOrSummary\<close> with \<open>checkFlag = false\<close>. The flag
  \<open>hidden\<close> is not read.
\<close>

definition summarizeMessageIncrementally_p2 ::
  "Env \<Rightarrow> (ChatRequest \<Rightarrow> http_reply) \<Rightarrow> ref \<Rightarrow> ChatSession \<Rightarrow> heap \<Rightarrow> ref SummarizeRun" where
  "summarizeMessageIncrementally_p2 env net message session h =
     (if summaryLevel (mask_modelConfig session) \<noteq> Incremental
      then \<lparr>issued = [], returned = Resolved message, heap_after = h\<rparr>
      else if int (length (content (h message))) < compressMessageLengthThreshold (mask_modelConfig session)
      then \<lparr>issued = [], returned = Resolved message, heap_after = h\<rparr>
      else
        let systemMessages = filter (\<lambda>message. role message = System) (mask_context session)
        in case indexOf (session_messages session) message of
             None \<Rightarrow> \<lparr>issued = [], returned = Resolved message, heap_after = h\<rparr>
           | Some i \<Rightarrow>
               let (req, answer) =
                     requestChat_p2 env net
                       (systemMessages
                        @ [mkMessage System (SummarizeIncremental env) []]
                        @ map (\<lambda>(message, inSummaryMode). message)
                            (map (\<lambda>message. getMessageOrSummary (h message) False)
                               (take (i + 1) (session_messages session))))
                       summaryOptions
               in case answer of
                    Rejected e \<Rightarrow> \<lparr>issued = [req], returned = Rejected e, heap_after = h\<rparr>
                  | Resolved response \<Rightarrow>
                      let summary' = first_content response
                      in if truthy_string summary'
                         then \<lparr>issued = [req], returned = Resolved message,
                               heap_after = h(message := (h message)
                                 \<lparr>summary := summary', useSummary := Some True,
                                  nSummaryTokens := usage_completion_tokens response\<rparr>)\<rparr>
                         else \<lparr>issued = [req], returned = Resolved message, heap_after = h\<rparr>)"

text \<open>
  Iteration of part 001. The two gates are commented out. The sub-conversation is the
  system messages of the context, the messages before the target that are not hidden,
  the instruction (dated like the target), and the target itself; the assembler of this
  iteration renders each of them by its flag \<open>useSummary\<close>. The function writes nothing:
  it returns a \<open>SummaryResponse\<close>, which \<open>summarizeMessage\<close> folds into the session.
\<close>

record SummaryResponse =
  messageId :: "int option"
  summary_text :: "string option"
  summary_tokens :: "int option"

definition summarizeMessageIncrementally_p1 ::
  "Env \<Rightarrow> (ChatRequest \<Rightarrow> http_reply) \<Rightarrow> ref \<Rightarrow> ChatSession \<Rightarrow> heap
     \<Rightarrow> SummaryResponse SummarizeRun" where
  "summarizeMessageIncrementally_p1 env net message session h =
     (let systemMessages = filter (\<lambda>message. role message = System) (mask_context session)
      in case indexOf (session_messages session) message of
           None \<Rightarrow>
             \<lparr>issued = [],
              returned = Resolved \<lparr>messageId = msg_id (h message), summary_text = None,
                                   summary_tokens = None\<rparr>,
              heap_after = h\<rparr>
         | Some i \<Rightarrow>
             let (req, answer) =
                   requestChat_p1 env net
                     (systemMessages
                      @ filter (\<lambda>message. \<not> truthy_bool (hidden message))
                          (map h (take i (session_messages session)))
                      @ [mkMessage System (SummarizeIncremental env) (date (h message))]
                      @ [h message])
                     summaryOptions
             in case answer of
                  Rejected e \<Rightarrow> \<lparr>issued = [req], returned = Rejected e, heap_after = h\<rparr>
                | Resolved response \<Rightarrow>
                    \<lparr>issued = [req],
                     returned = Resolved \<lparr>messageId = msg_id (h message),
                                          summary_text = first_content response,
                                          summary_tokens = usage_completion_tokens response\<rparr>,
                     heap_after = h\<rparr>)"

text \<open>
  \<open>summarizeMessage\<close> attaches one \<open>then\<close> handler and no rejection handler, and returns
  nothing: a rejected promise stays unhandled and the handler does not run. The handler
  looks the message up by \<open>m.id == summaryResponse.messageId\<close>, which also holds between
  two absent identifiers, and takes the first match.
\<close>

record MessageRun =
  requests :: "ChatRequest list"
  unhandled :: "js_error option"
  heap_left :: heap

definition summarizeMessage ::
  "Env \<Rightarrow> (ChatRequest \<Rightarrow> http_reply) \<Rightarrow> ref \<Rightarrow> ChatSession \<Rightarrow> heap \<Rightarrow> MessageRun" where
  "summarizeMessage env net messageForSummary session h =
     (let run = summarizeMessageIncrementally_p1 env net messageForSummary session h
      in case returned run of
           Rejected e \<Rightarrow> \<lparr>requests = issued run, unhandled = Some e, heap_left = heap_after run\<rparr>
         | Resolved summaryResponse \<Rightarrow>
             if \<not> truthy_string (summary_text summaryResponse)
             then \<lparr>requests = issued run, unhandled = None, heap_left = heap_after run\<rparr>
             else
               (case filter (\<lambda>m. msg_id (heap_after run m) = messageId summaryResponse)
                       (session_messages session) of
                  [] \<Rightarrow> \<lparr>requests = issued run, unhandled = None, heap_left = heap_after run\<rparr>
                | message # _ \<Rightarrow>
                    \<lparr>requests = issued run, unhandled = None,
                     heap_left = (heap_after run)(message := (heap_after run message)
                       \<lparr>summary := summary_text summaryResponse, useSummary := Some True,
                        nSummaryTokens := summary_tokens summaryResponse\<rparr>)\<rparr>))"

section \<open>Streaming transport: \<open>requestChatStream\<close>\<close>

text \<open>
  The function is asynchronous: what it does depends on what \<open>fetch\<close>, the body reader,
  the tokenizer and the two timers do, and it is observed through the callbacks of its
  \<open>options\<close>. The model takes the behaviour of the surroundings as data and returns the
  calls made for one call of the function, in order, including those that a timer left
  armed makes after the promise of the call has settled.

  \<^item> The request either is rejected (network failure), or the overall watchdog fires
    first, aborts the controller, and \<open>fetch\<close> is rejected with the abort error, or a
    response arrives. \<open>res.ok\<close> is the status being in the range 200 to 299.
  \<^item> Each \<open>await reader?.read()\<close> consumes one event: the read is resolved with
    \<open>{value, done}\<close>, or it is rejected (a network failure, or a cancellation through the
    controller handed to \<open>onController\<close>), or the idle watchdog fires while the read is
    pending. When the timer callback reaches \<open>finish\<close>, its \<open>controller.abort()\<close> errors
    the body stream: the pending read is rejected with the abort error, which the
    \<open>catch\<close> block reports.
  \<^item> \<open>clearTimeout(resTimeoutId)\<close> stands after the \<open>await\<close> and there is no \<open>finally\<close>:
    when the read is rejected, control goes to the \<open>catch\<close> block and the idle watchdog of
    that iteration stays armed. It fires later and runs its callback with the response
    text as it then is. In the same way \<open>clearTimeout(reqTimeoutId)\<close> is not reached when
    \<open>fetch\<close> is rejected or the tokenizer throws before the response is awaited; that
    timer only aborts the controller.
  \<^item> When the events run out while the loop awaits a read, the call has not settled.
  \<^item> \<open>new TextDecoder()\<close> with \<open>{stream: true}\<close> is a function from its state and a chunk
    to the decoded text and the next state; it does not throw.
  \<^item> \<open>encoding.encode(s).length\<close> of part 003 gives a number of tokens or throws (the
    tokenizer refuses text that holds a special token): a function to \<open>js_error + nat\<close>.
    Inside the \<open>try\<close> block the exception goes to the \<open>catch\<close> block; inside a timer
    callback it ends the callback, and nothing else happens.
  \<^item> The callbacks are those of an \<open>options\<close> object that is given, and they return
    normally.
\<close>

record Response =
  status :: nat
  has_body :: bool

definition ok :: "Response \<Rightarrow> bool" where
  "ok res = (200 \<le> status res \<and> status res \<le> 299)"

datatype fetch_outcome = FetchRejected js_error | RequestTimeout | FetchResolved Response

datatype 'b read_event = ReadResolved "'b option" bool | ReadRejected js_error | IdleTimeout

datatype callback =
    OnController
  | OnMessage string bool "nat option" "nat option"
  | OnError js_error "nat option"

text \<open>
  How the loop ends: by \<open>break\<close> with the response text, by an exception together with
  the calls that the watchdog left armed makes afterwards, or still waiting.
\<close>

datatype loop_end = Exit string | Threw js_error "callback list" | Pending

text \<open>
  The run of one call: the request sent, the calls made, whether the code of the call
  (\<open>finish\<close> or a watchdog) calls \<open>abort\<close> on the controller, and whether the promise of
  the call settles.
\<close>

record StreamRun =
  sent :: ChatRequest
  calls :: "callback list"
  controller_aborted :: bool
  settled :: bool

fun join :: "string \<Rightarrow> string list \<Rightarrow> string" where
  "join sep [] = []"
| "join sep [x] = x"
| "join sep (x # y # ys) = x @ sep @ join sep (y # ys)"

text \<open>
  The callback of the idle watchdog in part 003: it counts the tokens of the response
  text and calls \<open>finish\<close>; when the tokenizer throws, \<open>finish\<close> is not reached.
\<close>

definition watchdog_p3 :: "(string \<Rightarrow> js_error + nat) \<Rightarrow> nat \<Rightarrow> string \<Rightarrow> callback list" where
  "watchdog_p3 encode nPromptTokens responseText =
     (case encode responseText of
        Inl e \<Rightarrow> []
      | Inr nCompletionTokens \<Rightarrow>
          [OnMessage responseText True (Some nPromptTokens) (Some nCompletionTokens)])"

text \<open>
  The \<open>while (true)\<close> loop of part 003, from the response text and decoder state at the
  start of an iteration: the calls it makes, whether the idle watchdog has aborted the
  controller during the loop, and how it ends. The flag \<open>armed\<close> says whether the idle
  watchdog of the iteration can still fire: it is set at the start of every iteration and
  unset when the timer has fired and its callback has thrown, after which the read goes on
  without a watchdog (an \<open>IdleTimeout\<close> event then has nothing to fire and is passed over).
\<close>

fun read_loop_p3 ::
  "(string \<Rightarrow> js_error + nat) \<Rightarrow> ('d \<Rightarrow> 'b \<Rightarrow> string \<times> 'd) \<Rightarrow> nat \<Rightarrow> bool \<Rightarrow> 'd \<Rightarrow> string
     \<Rightarrow> 'b read_event list \<Rightarrow> callback list \<times> bool \<times> loop_end" where
  "read_loop_p3 encode decode nPromptTokens armed d responseText [] = ([], False, Pending)"
| "read_loop_p3 encode decode nPromptTokens armed d responseText (IdleTimeout # evs) =
     (if armed then
        (case encode responseText of
           Inl e \<Rightarrow> read_loop_p3 encode decode nPromptTokens False d responseText evs
         | Inr nCompletionTokens \<Rightarrow>
             ([OnMessage responseText True (Some nPromptTokens) (Some nCompletionTokens)],
              True, Threw AbortError []))
      else read_loop_p3 encode decode nPromptTokens False d responseText evs)"
| "read_loop_p3 encode decode nPromptTokens armed d responseText (ReadRejected err # evs) =
     ([], False,
      Threw err (if armed then watchdog_p3 encode nPromptTokens responseText else []))"
| "read_loop_p3 encode decode nPromptTokens armed d responseText (ReadResolved None done # evs) =
     ([], False, Exit responseText)"
| "read_loop_p3 encode decode nPromptTokens armed d responseText
       (ReadResolved (Some v) done # evs) =
     (let (text, d') = decode d v;
          responseText' = responseText @ text
      in if done
         then ([OnMessage responseText' False (Some nPromptTokens) None], False, Exit responseText')
         else (let (cs, ab, e) =
                     read_loop_p3 encode decode nPromptTokens True d' responseText' evs
               in (OnMessage responseText' False (Some nPromptTokens) None # cs, ab, e)))"

text \<open>
  \<open>requestChatStream\<close> of part 003. \<open>fetch\<close> is called first; the prompt tokens are
  counted before the response is awaited, inside the \<open>try\<close> block. After the loop the
  completion tokens are counted, again inside the \<open>try\<close> block, and \<open>finish\<close> is called.
\<close>

definition requestChatStream_p3 ::
  "Env \<Rightarrow> (string \<Rightarrow> js_error + nat) \<Rightarrow> ('d \<Rightarrow> 'b \<Rightarrow> string \<times> 'd) \<Rightarrow> 'd \<Rightarrow> Message list
     \<Rightarrow> string option \<Rightarrow> fetch_outcome \<Rightarrow> 'b read_event list \<Rightarrow> StreamRun" where
  "requestChatStream_p3 env encode decode d0 messages overrideModel' futureRes events =
     (let req = makeRequestParam_p0 env messages
                  \<lparr>stream = Some True, overrideModel = overrideModel',
                   overrideTemperature = None, overridePresencePenalty = None\<rparr>;
          concatedMessages = join [CHR 0x0A] (map content messages)
      in case encode concatedMessages of
           Inl err \<Rightarrow>
             \<lparr>sent = req, calls = [OnError err None], controller_aborted = True, settled = True\<rparr>
         | Inr nPromptTokens \<Rightarrow>
            (case futureRes of
               FetchRejected err \<Rightarrow>
                 \<lparr>sent = req, calls = [OnError err None], controller_aborted = True,
                  settled = True\<rparr>
             | RequestTimeout \<Rightarrow>
                 \<lparr>sent = req, calls = [OnError AbortError None], controller_aborted = True,
                  settled = True\<rparr>
             | FetchResolved res \<Rightarrow>
                 if ok res then
                   (let (cs, ab, e) =
                          (if has_body res
                           then read_loop_p3 encode decode nPromptTokens True d0 [] events
                           else ([], False, Exit []))
                    in case e of
                         Exit responseText \<Rightarrow>
                           (case encode responseText of
                              Inl err \<Rightarrow>
                                \<lparr>sent = req, calls = OnController # cs @ [OnError err None],
                                 controller_aborted = False, settled = True\<rparr>
                            | Inr nCompletionTokens \<Rightarrow>
                                \<lparr>sent = req,
                                 calls = OnController # cs
                                   @ [OnMessage responseText True (Some nPromptTokens)
                                        (Some nCompletionTokens)],
                                 controller_aborted = True, settled = True\<rparr>)
                       | Threw err late \<Rightarrow>
                           \<lparr>sent = req, calls = OnController # cs @ [OnError err None] @ late,
                            controller_aborted = (ab \<or> late \<noteq> []), settled = True\<rparr>
                       | Pending \<Rightarrow>
                           \<lparr>sent = req, calls = OnController # cs, controller_aborted = ab,
                            settled = False\<rparr>)
                 else if status res = 401 then
                   \<lparr>sent = req, calls = [OnError (Error ''Unauthorized'') (Some (status res))],
                    controller_aborted = False, settled = True\<rparr>
                 else
                   \<lparr>sent = req, calls = [OnError (Error ''Stream Error'') (Some (status res))],
                    controller_aborted = False, settled = True\<rparr>))"



text \<open>Reading a list of calls: completions, errors, partial messages, message texts.\<close>

fun is_done :: "callback \<Rightarrow> bool" where
  "is_done (OnMessage t dn a b) = dn"
| "is_done c = False"

fun is_partial :: "callback \<Rightarrow> bool" where
  "is_partial (OnMessage t dn a b) = (\<not> dn)"
| "is_partial c = False"

fun is_error :: "callback \<Rightarrow> bool" where
  "is_error (OnError e s) = True"
| "is_error c = False"

fun is_message :: "callback \<Rightarrow> bool" where
  "is_message (OnMessage t dn a b) = True"
| "is_message c = False"

fun message_text :: "callback \<Rightarrow> string" where
  "message_text (OnMessage t dn a b) = t"
| "message_text c = []"



definition message_texts :: "callback list \<Rightarrow> string list" where
  "message_texts cs = map message_text (filter is_message cs)"


fun is_rejection :: "'b read_event \<Rightarrow> bool" where
  "is_rejection (ReadRejected err) = True"
| "is_rejection ev = False"

definition accepts :: "(string \<Rightarrow> js_error + nat) \<Rightarrow> string \<Rightarrow> bool" where
  "accepts encode s = (case encode s of Inl e \<Rightarrow> False | Inr n \<Rightarrow> True)"



section \<open>Sample values\<close>

text \<open>
  Concrete surroundings and runs, used where a statement is evaluated: a configuration, a
  tokenizer that counts characters and one that also refuses the text of a special token,
  a prompt that is this text, a decoder for chunks that are text already, a successful
  response, a run in which the idle watchdog fires after one chunk, a run in which the
  read after one chunk is rejected, and the events of the chunks \<open>Hel\<close> and \<open>lo\<close>
  followed by the end of the stream.
\<close>

definition sample_config :: ModelConfig where
  "sample_config =
     \<lparr>model = ''gpt-3.5-turbo'', temperature = 1, presence_penalty = 0,
      summaryLevel = Incremental, compressMessageLengthThreshold = 100\<rparr>"

definition sample_env :: Env where
  "sample_env =
     \<lparr>INCREMENTAL_SUMMARY_PREFIX = ''[SUMMARY]'', SummarizeIncremental = ''Summarize.'',
      currentModelConfig = sample_config\<rparr>"

definition plain_decode :: "unit \<Rightarrow> string \<Rightarrow> string \<times> unit" where
  "plain_decode d v = (v, d)"

definition ok_response :: Response where
  "ok_response = \<lparr>status = 200, has_body = True\<rparr>"

definition char_count :: "string \<Rightarrow> js_error + nat" where
  "char_count s = Inr (length s)"




definition dropped_run :: StreamRun where
  "dropped_run =
     requestChatStream_p3 sample_env char_count plain_decode () [] None
       (FetchResolved ok_response)
       [ReadResolved (Some ''Hel'') False, ReadRejected (PlatformError ''connection lost'')]"

definition hello_events :: "string read_event list" where
  "hello_events =
     [ReadResolved (Some ''Hel'') False, ReadResolved (Some ''lo'') False, ReadResolved None True]"

text \<open>
  Options without overrides; a message that carries a summary while its flag is off; a
  network that is down and one that answers without content; a session of one short
  message; a session whose first message is hidden and whose second is the target.
\<close>

definition no_overrides :: ParamOptions where
  "no_overrides =
     \<lparr>stream = Some True, overrideModel = None, overrideTemperature = None,
      overridePresencePenalty = None\<rparr>"

definition unflagged_message :: Message where
  "unflagged_message =
     (mkMessage User ''original text'' [])\<lparr>summary := Some ''short'', useSummary := Some False\<rparr>"

definition offline :: "ChatRequest \<Rightarrow> http_reply" where
  "offline req = NetworkFailure (PlatformError ''offline'')"

definition no_content :: "ChatRequest \<Rightarrow> http_reply" where
  "no_content req = Json \<lparr>choices = [], prompt_tokens = None, completion_tokens = None\<rparr>"

definition short_heap :: heap where
  "short_heap r = mkMessage User ''hi'' []"

definition short_session :: ChatSession where
  "short_session =
     \<lparr>session_messages = [0], mask_context = [], mask_modelConfig = sample_config\<rparr>"

definition hidden_heap :: heap where
  "hidden_heap r =
     (if r = 0 then (mkMessage User ''secret'' [])\<lparr>hidden := Some True\<rparr>
      else mkMessage User ''target text'' [])"

definition hidden_session :: ChatSession where
  "hidden_session =
     \<lparr>session_messages = [0, 1], mask_context = [],
      mask_modelConfig = sample_config\<lparr>compressMessageLengthThreshold := 5\<rparr>\<rparr>"

text \<open>
  Replies from which no summary comes: a rejected \<open>fetch\<close>, a body that does not parse, a
  parsed body whose first choice has no content or an empty one. A reply is an answer
  when \<open>fetch\<close> was not rejected.
\<close>

fun unusable :: "http_reply \<Rightarrow> bool" where
  "unusable (Json r) = (\<not> truthy_string (first_content (Some r)))"
| "unusable reply = True"

fun is_answer :: "http_reply \<Rightarrow> bool" where
  "is_answer (NetworkFailure e) = False"
| "is_answer reply = True"

section \<open>Properties of the cancellation registry\<close>

lemma key_1_2: "key 1 2 = ''1,2''"
  by (simp add: key_def show_int_def show_nat.simps)

text \<open>
  Claim C7. After \<open>addController(c, m, h)\<close> and then \<open>remove(c, m)\<close>, \<open>stop(c, m)\<close> changes
  nothing: the registry and the set of aborted controllers are as \<open>remove\<close> left them, so
  \<open>abort\<close> has not been called on \<open>h\<close> by it. In general \<open>stop\<close> on a key that is not
  registered leaves the whole state as it is. \<open>stop\<close> has no failing branch: the optional
  call \<open>controller?.abort()\<close> is skipped for an absent entry.
\<close>

theorem stop_after_remove_is_noop:
  "stop c m (remove_controller c m (snd (addController c m h p)))
     = remove_controller c m (snd (addController c m h p))
   \<and> aborted (stop c m (remove_controller c m (snd (addController c m h p)))) = aborted p
   \<and> (controllers q (key c m) = None \<longrightarrow> stop c m q = q)"
  by (simp add: stop_def remove_controller_def addController_def Let_def)

theorem stop_after_remove_is_noop_witness:
  "controllers \<lparr>controllers = Map.empty, aborted = {}\<rparr> (key 1 2) = None
   \<and> stop 1 2 \<lparr>controllers = Map.empty, aborted = {}\<rparr> = \<lparr>controllers = Map.empty, aborted = {}\<rparr>
   \<and> aborted (stop 1 2 (remove_controller 1 2
        (snd (addController 1 2 7 \<lparr>controllers = Map.empty, aborted = {}\<rparr>)))) = {}"
  using stop_after_remove_is_noop [of 1 2 7 "\<lparr>controllers = Map.empty, aborted = {}\<rparr>"
          "\<lparr>controllers = Map.empty, aborted = {}\<rparr>"]
  by (simp add: remove_controller_def addController_def Let_def)

text \<open>
  Claim C10. \<open>stop\<close> does not change the registry: the map \<open>controllers\<close> after
  \<open>stop(c, m)\<close> is the map before it, so an entry stays registered and \<open>hasPending()\<close>
  gives the same answer. \<open>stopAll\<close> keeps the map as well; \<open>addController\<close> and \<open>remove\<close>
  are the operations that write it.
\<close>

theorem stop_keeps_registry:
  "controllers (stop c m p) = controllers p
   \<and> hasPending (stop c m p) = hasPending p
   \<and> controllers (stopAll p) = controllers p
   \<and> controllers (snd (addController c m h p)) = (controllers p)(key c m \<mapsto> h)
   \<and> controllers (remove_controller c m p) = (controllers p)(key c m := None)"
  by (simp add: stop_def stopAll_def hasPending_def addController_def remove_controller_def
        Let_def split: option.split)

theorem stop_keeps_registry_witness:
  "controllers (stop 1 2 \<lparr>controllers = [''1,2'' \<mapsto> 7], aborted = {}\<rparr>) ''1,2'' = Some 7
   \<and> aborted (stop 1 2 \<lparr>controllers = [''1,2'' \<mapsto> 7], aborted = {}\<rparr>) = {7}
   \<and> hasPending (stop 1 2 \<lparr>controllers = [''1,2'' \<mapsto> 7], aborted = {}\<rparr>)"
  using stop_keeps_registry [of 1 2 "\<lparr>controllers = [''1,2'' \<mapsto> 7], aborted = {}\<rparr>" 7]
  by (simp add: stop_def key_1_2 hasPending_def)

section \<open>Properties of the request assembler\<close>

lemma truthy_string_simps:
  "truthy_string None = False" "truthy_string (Some s) = (s \<noteq> [])"
  by (simp_all add: truthy_string_def)

lemma summaryIntro_fields:
  "role (summaryIntro env) = System" "summary (summaryIntro env) = None"
  by (simp_all add: summaryIntro_def mkMessage_def)

lemma req_messages_withModelConfig: "req_messages (withModelConfig env ms options) = ms"
  by (simp add: withModelConfig_def Let_def split: option.split)

lemma or_empty_Some: "or_empty (Some c) = c"
  by (simp add: or_empty_def truthy_string_def template_def)

lemma or_empty_truthy: "truthy_string s \<Longrightarrow> or_empty s = template s"
  by (simp add: or_empty_def)

text \<open>The message list of the request, for each iteration of the assembler.\<close>

lemma req_messages_p0:
  "req_messages (makeRequestParam_p0 env msgs options) =
     map (\<lambda>v. OutMessage (role v)
            (if summaryLevel (currentModelConfig env) = Incremental \<and> truthy_string (summary v)
             then INCREMENTAL_SUMMARY_PREFIX env @ '' '' @ template (summary v)
             else content v)) msgs"
  by (simp add: makeRequestParam_p0_def req_messages_withModelConfig)

lemma req_messages_p1:
  "req_messages (makeRequestParam_p1 env msgs options) =
     OutMessage System SWIFTY #
     map (\<lambda>message. OutMessage (role message)
            (if truthy_bool (useSummary message)
             then INCREMENTAL_SUMMARY_PREFIX env @ '' '' @ template (summary message)
             else content message)) msgs"
  by (simp add: makeRequestParam_p1_def req_messages_withModelConfig)

lemma req_messages_p2:
  "req_messages (makeRequestParam_p2 env msgs options) =
     OutMessage System (content (summaryIntro env)) #
     map (\<lambda>message. OutMessage (role message)
            (if truthy_string (summary message)
             then INCREMENTAL_SUMMARY_PREFIX env @ '' '' @ template (summary message)
             else content message)) msgs"
  by (simp add: makeRequestParam_p2_def req_messages_withModelConfig getMessageOrSummary_def
        isMessageInSummaryMode_def mkMessage_def or_empty_Some or_empty_truthy summaryIntro_fields
        truthy_string_simps Let_def)

text \<open>
  Claim C2, as stated, fails in the iterations that do not read the flag. A message with
  \<open>useSummary = false\<close> that still carries the summary \<open>short\<close> leaves the assembler of
  part 002, and that of parts 000 and 003 when the level is \<open>Incremental\<close>, as the marker,
  a space and the summary, not as its content \<open>original text\<close>.
\<close>

theorem unflagged_summary_is_substituted:
  "useSummary unflagged_message = Some False
   \<and> content unflagged_message = ''original text''
   \<and> req_messages (makeRequestParam_p2 sample_env [unflagged_message] no_overrides) ! 1
       = OutMessage User ''[SUMMARY] short''
   \<and> req_messages (makeRequestParam_p0 sample_env [unflagged_message] no_overrides)
       = [OutMessage User ''[SUMMARY] short'']"
  by (simp add: req_messages_p2 req_messages_p0 unflagged_message_def mkMessage_def
        sample_env_def sample_config_def truthy_string_def template_def)

text \<open>
  Claim C2, amended. In the iteration that reads the flag (part 001), a message whose
  \<open>useSummary\<close> is false or absent is sent with its original content verbatim; its pair
  follows the fixed system message, so it is at position \<open>i + 1\<close>. The other iterations
  do not read the flag: part 002 sends the original content exactly when the message has
  no non-empty summary, parts 000 and 003 when it has none or the level of the current
  session is not \<open>Incremental\<close>; otherwise they send the marker, a space and the summary,
  whatever \<open>useSummary\<close> is.
\<close>

theorem makeRequestParam_verbatim_content:
  "(i < length msgs \<and> \<not> truthy_bool (useSummary (msgs ! i)) \<longrightarrow>
      req_messages (makeRequestParam_p1 env msgs options) ! Suc i
        = OutMessage (role (msgs ! i)) (content (msgs ! i)))
   \<and> (i < length msgs \<longrightarrow>
      req_messages (makeRequestParam_p2 env msgs options) ! Suc i
        = OutMessage (role (msgs ! i))
            (if truthy_string (summary (msgs ! i))
             then INCREMENTAL_SUMMARY_PREFIX env @ '' '' @ template (summary (msgs ! i))
             else content (msgs ! i)))
   \<and> (i < length msgs \<longrightarrow>
      req_messages (makeRequestParam_p0 env msgs options) ! i
        = OutMessage (role (msgs ! i))
            (if summaryLevel (currentModelConfig env) = Incremental
                \<and> truthy_string (summary (msgs ! i))
             then INCREMENTAL_SUMMARY_PREFIX env @ '' '' @ template (summary (msgs ! i))
             else content (msgs ! i)))"
  by (simp add: req_messages_p0 req_messages_p1 req_messages_p2)

theorem makeRequestParam_verbatim_content_witness:
  "(0::nat) < length [unflagged_message] \<and> \<not> truthy_bool (useSummary ([unflagged_message] ! 0))
   \<and> req_messages (makeRequestParam_p1 sample_env [unflagged_message] no_overrides) ! Suc 0
        = OutMessage User ''original text''"
  using makeRequestParam_verbatim_content [of 0 "[unflagged_message]" sample_env no_overrides]
  by (simp add: unflagged_message_def mkMessage_def truthy_bool_def)

section \<open>Properties of the streaming transport\<close>

text \<open>Counting completions and errors in a list of calls.\<close>

lemma partial_not_done: "is_partial c \<Longrightarrow> \<not> is_done c \<and> \<not> is_error c"
  by (cases c) auto










text \<open>
  The calls of the read loop are partial messages, followed by one completion exactly
  when the idle watchdog has fired and reached \<open>finish\<close>; the loop then ends with the abort
  error. When the loop ends with another exception, a read has been rejected, and the
  watchdog left armed makes at most one call, a completion.
\<close>

lemma watchdog_p3_cases:
  "watchdog_p3 enc np t = []
   \<or> (\<exists>nc. enc t = Inr nc \<and> watchdog_p3 enc np t = [OnMessage t True (Some np) (Some nc)])"
  by (cases "enc t") (simp_all add: watchdog_p3_def)

lemma read_loop_p3_shape:
  "read_loop_p3 enc dec np armed d t evs = (cs, ab, e) \<Longrightarrow>
     (ab \<longrightarrow> e = Threw AbortError [] \<and> IdleTimeout \<in> set evs \<and>
             (\<exists>ps u nc. cs = ps @ [OnMessage u True (Some np) (Some nc)] \<and> list_all is_partial ps))
     \<and> (\<not> ab \<longrightarrow> list_all is_partial cs \<and>
             (\<forall>err late. e = Threw err late \<longrightarrow> list_ex is_rejection evs \<and>
                (late = [] \<or> (\<exists>u nc. late = [OnMessage u True (Some np) (Some nc)]))))"
proof (induction evs arbitrary: armed d t cs ab e)
  case Nil
  then show ?case by simp
next
  case (Cons ev evs)
  show ?case
  proof (cases ev)
    case (ReadResolved v dn)
    show ?thesis
    proof (cases v)
      case None
      with Cons.prems ReadResolved show ?thesis by auto
    next
      case (Some b)
      obtain x d' where dec: "dec d b = (x, d')" by (cases "dec d b")
      show ?thesis
      proof (cases dn)
        case True
        with Cons.prems ReadResolved Some dec show ?thesis by (auto simp: Let_def)
      next
        case False
        obtain cs' ab' e' where rec: "read_loop_p3 enc dec np True d' (t @ x) evs = (cs', ab', e')"
          by (cases "read_loop_p3 enc dec np True d' (t @ x) evs")
        from Cons.prems ReadResolved Some dec False rec
        have eqs: "cs = OnMessage (t @ x) False (Some np) None # cs'" "ab = ab'" "e = e'"
          by (auto simp: Let_def)
        from Cons.IH [OF rec] eqs ReadResolved show ?thesis
          by (cases ab') (auto intro: exI [of _ "OnMessage (t @ x) False (Some np) None # ps" for ps])
      qed
    qed
  next
    case (ReadRejected err)
    with Cons.prems watchdog_p3_cases [of enc np t] show ?thesis by auto
  next
    case IdleTimeout
    show ?thesis
    proof (cases "armed \<and> (\<exists>nc. enc t = Inr nc)")
      case True
      with Cons.prems IdleTimeout show ?thesis by auto
    next
      case False
      with Cons.prems IdleTimeout
      have "read_loop_p3 enc dec np False d t evs = (cs, ab, e)"
        by (cases "enc t") (auto split: if_splits)
      from Cons.IH [OF this] IdleTimeout show ?thesis by auto
    qed
  qed
qed

text \<open>When the tokenizer throws on the prompt, the error is the only call.\<close>

lemma requestChatStream_p3_tokenizer_throws:
  assumes "enc (join [CHR 0x0A] (map content msgs)) = Inl err"
  shows "calls (requestChatStream_p3 env enc dec d0 msgs om fr evs) = [OnError err None]"
    and "settled (requestChatStream_p3 env enc dec d0 msgs om fr evs)"
  using assms by (simp_all add: requestChatStream_p3_def Let_def)

lemma requestChatStream_p3_ok:
  assumes "enc (join [CHR 0x0A] (map content msgs)) = Inr np"
    and "ok res"
    and "(if has_body res then read_loop_p3 enc dec np True d0 [] evs
          else ([], False, Exit [])) = (cs, ab, e)"
  shows "calls (requestChatStream_p3 env enc dec d0 msgs om (FetchResolved res) evs) =
           (case e of
              Exit responseText \<Rightarrow>
                (case enc responseText of
                   Inl err \<Rightarrow> OnController # cs @ [OnError err None]
                 | Inr nc \<Rightarrow> OnController # cs @ [OnMessage responseText True (Some np) (Some nc)])
            | Threw err late \<Rightarrow> OnController # cs @ [OnError err None] @ late
            | Pending \<Rightarrow> OnController # cs)"
    and "settled (requestChatStream_p3 env enc dec d0 msgs om (FetchResolved res) evs) = (e \<noteq> Pending)"
  using assms
  by (cases "has_body res"; cases e; simp add: requestChatStream_p3_def Let_def split: sum.split)+

text \<open>The six shapes of the calls of one run.\<close>

lemma p3_calls_cases:
  assumes r: "r = requestChatStream_p3 env enc dec d0 msgs om fr evs"
  shows "(\<exists>err st. calls r = [OnError err st] \<and> settled r)
       \<or> (\<exists>ps. list_all is_partial ps \<and>
             ((\<exists>u a b. calls r = OnController # ps @ [OnMessage u True a b] \<and> settled r)
            \<or> (\<exists>err. calls r = OnController # ps @ [OnError err None] \<and> settled r)
            \<or> (\<exists>u a b. calls r = OnController # ps @ [OnMessage u True a b, OnError AbortError None]
                  \<and> settled r \<and> IdleTimeout \<in> set evs)
            \<or> (\<exists>err u a b. calls r = OnController # ps @ [OnError err None, OnMessage u True a b]
                  \<and> settled r \<and> list_ex is_rejection evs)
            \<or> (calls r = OnController # ps \<and> \<not> settled r)))"
proof (cases "enc (join [CHR 0x0A] (map content msgs))")
  case (Inl err)
  from requestChatStream_p3_tokenizer_throws [of enc msgs err env dec d0 om fr evs] Inl
  show ?thesis by (simp add: r)
next
  case (Inr np)
  show ?thesis
  proof (cases fr)
    case (FetchRejected err)
    with Inr show ?thesis by (simp add: r requestChatStream_p3_def Let_def)
  next
    case RequestTimeout
    with Inr show ?thesis by (simp add: r requestChatStream_p3_def Let_def)
  next
    case (FetchResolved res)
    show ?thesis
    proof (cases "ok res")
      case False
      with Inr FetchResolved show ?thesis by (simp add: r requestChatStream_p3_def Let_def)
    next
      case True
      define lp where "lp = (if has_body res then read_loop_p3 enc dec np True d0 [] evs
                             else ([], False, Exit []))"
      obtain cs ab e where lp: "lp = (cs, ab, e)" by (cases lp)
      have shape: "(ab \<longrightarrow> e = Threw AbortError [] \<and> IdleTimeout \<in> set evs \<and>
             (\<exists>ps u nc. cs = ps @ [OnMessage u True (Some np) (Some nc)] \<and> list_all is_partial ps))
         \<and> (\<not> ab \<longrightarrow> list_all is_partial cs \<and>
             (\<forall>err late. e = Threw err late \<longrightarrow> list_ex is_rejection evs \<and>
                (late = [] \<or> (\<exists>u nc. late = [OnMessage u True (Some np) (Some nc)]))))"
      proof (cases "has_body res")
        case True
        with lp have "read_loop_p3 enc dec np True d0 [] evs = (cs, ab, e)" by (simp add: lp_def)
        then show ?thesis by (rule read_loop_p3_shape)
      next
        case False
        with lp show ?thesis by (auto simp: lp_def)
      qed
      have c: "calls r = (case e of
              Exit responseText \<Rightarrow>
                (case enc responseText of
                   Inl err \<Rightarrow> OnController # cs @ [OnError err None]
                 | Inr nc \<Rightarrow> OnController # cs @ [OnMessage responseText True (Some np) (Some nc)])
            | Threw err late \<Rightarrow> OnController # cs @ [OnError err None] @ late
            | Pending \<Rightarrow> OnController # cs)"
        and st: "settled r = (e \<noteq> Pending)"
        using requestChatStream_p3_ok [of enc msgs np res dec d0 evs cs ab e env om] Inr True
          lp [unfolded lp_def] FetchResolved
        by (simp_all add: r)
      show ?thesis
      proof (cases ab)
        case True
        with shape obtain ps u nc where "e = Threw AbortError []" "IdleTimeout \<in> set evs"
          "cs = ps @ [OnMessage u True (Some np) (Some nc)]" "list_all is_partial ps"
          by auto
        with c st have "calls r = OnController # ps @ [OnMessage u True (Some np) (Some nc), OnError AbortError None]"
          "settled r" by simp_all
        with \<open>list_all is_partial ps\<close> \<open>IdleTimeout \<in> set evs\<close> show ?thesis by blast
      next
        case False
        with shape have ps: "list_all is_partial cs"
          and late: "\<And>err late. e = Threw err late \<Longrightarrow> list_ex is_rejection evs \<and>
                (late = [] \<or> (\<exists>u nc. late = [OnMessage u True (Some np) (Some nc)]))"
          by auto
        show ?thesis
        proof (cases e)
          case (Exit u)
          show ?thesis
          proof (cases "enc u")
            case (Inl err)
            with Exit c st have "calls r = OnController # cs @ [OnError err None]" "settled r"
              by simp_all
            with ps show ?thesis by blast
          next
            case (Inr nc)
            with Exit c st have "calls r = OnController # cs @ [OnMessage u True (Some np) (Some nc)]"
              "settled r" by simp_all
            with ps show ?thesis by blast
          qed
        next
          case (Threw err lt)
          from late [OF Threw] have rej: "list_ex is_rejection evs"
            and lt: "lt = [] \<or> (\<exists>u nc. lt = [OnMessage u True (Some np) (Some nc)])" by auto
          from lt show ?thesis
          proof
            assume "lt = []"
            with Threw c st have "calls r = OnController # cs @ [OnError err None]" "settled r"
              by simp_all
            with ps show ?thesis by blast
          next
            assume "\<exists>u nc. lt = [OnMessage u True (Some np) (Some nc)]"
            then obtain u nc where "lt = [OnMessage u True (Some np) (Some nc)]" by blast
            with Threw c st
            have "calls r = OnController # cs @ [OnError err None, OnMessage u True (Some np) (Some nc)]"
              "settled r" by simp_all
            with ps rej show ?thesis by blast
          qed
        next
          case Pending
          with c st have "calls r = OnController # cs" "\<not> settled r" by simp_all
          with ps show ?thesis by blast
        qed
      qed
    qed
  qed
qed

lemma message_texts_simps:
  "message_texts [] = []"
  "message_texts (OnMessage t dn a b # cs) = t # message_texts cs"
  "message_texts (OnController # cs) = message_texts cs"
  "message_texts (OnError err st # cs) = message_texts cs"
  "message_texts (xs @ ys) = message_texts xs @ message_texts ys"
  by (simp_all add: message_texts_def)

lemma message_texts_watchdog_p3:
  "message_texts (watchdog_p3 enc np t) = [] \<or> message_texts (watchdog_p3 enc np t) = [t]"
  using watchdog_p3_cases [of enc np t] by (auto simp: message_texts_simps)

text \<open>The response text only grows: every text passed on is at least as long as the
  one before, and no longer than the text at the end.\<close>

lemma read_loop_p3_texts:
  "read_loop_p3 enc dec np armed d t evs = (cs, ab, e) \<Longrightarrow>
     (\<forall>s\<in>set (message_texts cs). length t \<le> length s)
     \<and> sorted_wrt (\<lambda>a b. length a \<le> length b) (message_texts cs)
     \<and> (\<forall>u. e = Exit u \<longrightarrow> length t \<le> length u \<and> (\<forall>s\<in>set (message_texts cs). length s \<le> length u))
     \<and> (\<forall>err late. e = Threw err late \<longrightarrow>
           sorted_wrt (\<lambda>a b. length a \<le> length b) (message_texts late)
           \<and> (\<forall>u\<in>set (message_texts late). length t \<le> length u
                 \<and> (\<forall>s\<in>set (message_texts cs). length s \<le> length u)))"
proof (induction evs arbitrary: armed d t cs ab e)
  case Nil
  then show ?case by (simp add: message_texts_simps)
next
  case (Cons ev evs)
  show ?case
  proof (cases ev)
    case (ReadResolved v dn)
    show ?thesis
    proof (cases v)
      case None
      with Cons.prems ReadResolved show ?thesis by (auto simp: message_texts_simps)
    next
      case (Some b)
      obtain x d' where dec: "dec d b = (x, d')" by (cases "dec d b")
      show ?thesis
      proof (cases dn)
        case True
        with Cons.prems ReadResolved Some dec show ?thesis
          by (auto simp: Let_def message_texts_simps)
      next
        case False
        obtain cs' ab' e' where rec: "read_loop_p3 enc dec np True d' (t @ x) evs = (cs', ab', e')"
          by (cases "read_loop_p3 enc dec np True d' (t @ x) evs")
        from Cons.prems ReadResolved Some dec False rec
        have eqs: "cs = OnMessage (t @ x) False (Some np) None # cs'" "ab = ab'" "e = e'"
          by (auto simp: Let_def)
        from Cons.IH [OF rec] eqs show ?thesis
          by (fastforce simp: message_texts_simps)
      qed
    qed
  next
    case (ReadRejected err)
    with Cons.prems message_texts_watchdog_p3 [of enc np t] show ?thesis
      by (cases armed) (auto simp: message_texts_simps)
  next
    case IdleTimeout
    show ?thesis
    proof (cases "armed \<and> (\<exists>nc. enc t = Inr nc)")
      case True
      with Cons.prems IdleTimeout show ?thesis by (auto simp: message_texts_simps)
    next
      case False
      with Cons.prems IdleTimeout
      have "read_loop_p3 enc dec np False d t evs = (cs, ab, e)"
        by (cases "enc t") (auto split: if_splits)
      from Cons.IH [OF this] show ?thesis by blast
    qed
  qed
qed

lemma p3_texts_sorted:
  "sorted_wrt (\<lambda>a b. length a \<le> length b)
     (message_texts (calls (requestChatStream_p3 env enc dec d0 msgs om fr evs)))"
proof (cases "enc (join [CHR 0x0A] (map content msgs))")
  case (Inl err)
  from requestChatStream_p3_tokenizer_throws(1) [of enc msgs err env dec d0 om fr evs] Inl
  show ?thesis by (simp add: message_texts_simps)
next
  case (Inr np)
  show ?thesis
  proof (cases fr)
    case (FetchRejected err)
    with Inr show ?thesis by (simp add: requestChatStream_p3_def Let_def message_texts_simps)
  next
    case RequestTimeout
    with Inr show ?thesis by (simp add: requestChatStream_p3_def Let_def message_texts_simps)
  next
    case (FetchResolved res)
    show ?thesis
    proof (cases "ok res")
      case False
      with Inr FetchResolved show ?thesis
        by (simp add: requestChatStream_p3_def Let_def message_texts_simps)
    next
      case True
      define lp where "lp = (if has_body res then read_loop_p3 enc dec np True d0 [] evs
                             else ([], False, Exit []))"
      obtain cs ab e where lp: "lp = (cs, ab, e)" by (cases lp)
      have texts: "sorted_wrt (\<lambda>a b. length a \<le> length b) (message_texts cs)
         \<and> (\<forall>u. e = Exit u \<longrightarrow> (\<forall>s\<in>set (message_texts cs). length s \<le> length u))
         \<and> (\<forall>err late. e = Threw err late \<longrightarrow>
               sorted_wrt (\<lambda>a b. length a \<le> length b) (message_texts late)
               \<and> (\<forall>u\<in>set (message_texts late).
                     (\<forall>s\<in>set (message_texts cs). length s \<le> length u)))"
      proof (cases "has_body res")
        case True
        with lp have "read_loop_p3 enc dec np True d0 [] evs = (cs, ab, e)" by (simp add: lp_def)
        from read_loop_p3_texts [OF this] show ?thesis by blast
      next
        case False
        with lp show ?thesis by (auto simp: lp_def message_texts_simps)
      qed
      have c: "calls (requestChatStream_p3 env enc dec d0 msgs om fr evs) = (case e of
              Exit responseText \<Rightarrow>
                (case enc responseText of
                   Inl err \<Rightarrow> OnController # cs @ [OnError err None]
                 | Inr nc \<Rightarrow> OnController # cs @ [OnMessage responseText True (Some np) (Some nc)])
            | Threw err late \<Rightarrow> OnController # cs @ [OnError err None] @ late
            | Pending \<Rightarrow> OnController # cs)"
        using requestChatStream_p3_ok(1) [of enc msgs np res dec d0 evs cs ab e env om] Inr True
          lp [unfolded lp_def] FetchResolved
        by simp
      show ?thesis
      proof (cases e)
        case (Exit u)
        with c texts show ?thesis
          by (cases "enc u") (auto simp: message_texts_simps sorted_wrt_append)
      next
        case (Threw err late)
        with c texts show ?thesis
          by (auto simp: message_texts_simps sorted_wrt_append)
      next
        case Pending
        with c texts show ?thesis by (auto simp: message_texts_simps)
      qed
    qed
  qed
qed

lemma partial_before_done:
  assumes "list_all is_partial ps" "\<forall>c\<in>set rest. \<not> is_partial c"
    and "i < length (OnController # ps @ rest)" "j < length (OnController # ps @ rest)"
    and "is_partial ((OnController # ps @ rest) ! i)" "is_done ((OnController # ps @ rest) ! j)"
  shows "i < j"
proof -
  have i: "0 < i \<and> i - 1 < length ps"
  proof (rule ccontr)
    assume "\<not> ?thesis"
    then have "i = 0 \<or> (0 < i \<and> length ps \<le> i - 1)" by auto
    then show False
    proof
      assume "i = 0" with assms(5) show False by simp
    next
      assume a: "0 < i \<and> length ps \<le> i - 1"
      then have "(OnController # ps @ rest) ! i = rest ! (i - 1 - length ps)"
        by (cases i) (auto simp: nth_append)
      moreover from a assms(3) have "i - 1 - length ps < length rest" by auto
      ultimately show False using assms(2,5) by (metis nth_mem)
    qed
  qed
  have j: "\<not> (j - 1 < length ps \<and> 0 < j)"
  proof
    assume a: "j - 1 < length ps \<and> 0 < j"
    then have "(OnController # ps @ rest) ! j = ps ! (j - 1)"
      by (cases j) (auto simp: nth_append)
    with a assms(1,6) show False
      by (metis list_all_length partial_not_done)
  qed
  from assms(6) have "j \<noteq> 0" by (cases j) auto
  with i j show ?thesis by auto
qed

lemma p3_partial_before_done:
  assumes "i < length (calls (requestChatStream_p3 env enc dec d0 msgs om fr evs))"
    and "j < length (calls (requestChatStream_p3 env enc dec d0 msgs om fr evs))"
    and "is_partial (calls (requestChatStream_p3 env enc dec d0 msgs om fr evs) ! i)"
    and "is_done (calls (requestChatStream_p3 env enc dec d0 msgs om fr evs) ! j)"
  shows "i < j"
proof -
  let ?r = "requestChatStream_p3 env enc dec d0 msgs om fr evs"
  from p3_calls_cases [OF refl, of env enc dec d0 msgs om fr evs]
  consider (err) err st where "calls ?r = [OnError err st]"
    | (shape) ps rest where "list_all is_partial ps" "\<forall>c\<in>set rest. \<not> is_partial c"
        "calls ?r = OnController # ps @ rest"
    by (elim disjE exE conjE) (force+)
  then show ?thesis
  proof cases
    case err
    with assms show ?thesis by simp
  next
    case shape
    with assms partial_before_done [of ps rest i j] show ?thesis by simp
  qed
qed






lemma char_count_accepts: "accepts char_count s"
  by (simp add: accepts_def char_count_def)

text \<open>
  A run with a rejected read. The read after the chunk \<open>Hel\<close> is rejected, the \<open>catch\<close>
  block calls \<open>onError\<close>, and \<open>clearTimeout\<close> has not been reached: the watchdog of that
  iteration fires afterwards and its \<open>finish\<close> calls \<open>onMessage("Hel", true)\<close>.
\<close>

lemma rejected_read_leaves_watchdog_armed:
  "calls dropped_run =
     [OnController, OnMessage ''Hel'' False (Some 0) None,
      OnError (PlatformError ''connection lost'') None,
      OnMessage ''Hel'' True (Some 0) (Some 3)]"
  by (simp add: dropped_run_def requestChatStream_p3_def ok_def ok_response_def plain_decode_def
        char_count_def watchdog_p3_def Let_def)







text \<open>
  Claim C5. Within one call of \<open>requestChatStream\<close>, every \<open>onMessage\<close> invocation with
  \<open>done = false\<close> comes before every invocation with \<open>done = true\<close>, and the length of the
  text passed to \<open>onMessage\<close> never decreases from one invocation to the next.
\<close>

theorem requestChatStream_call_order:
  "(\<forall>i j. i < length (calls (requestChatStream_p3 env encode decode d0 msgs om futureRes events))
          \<and> j < length (calls (requestChatStream_p3 env encode decode d0 msgs om futureRes events))
          \<and> is_partial (calls (requestChatStream_p3 env encode decode d0 msgs om futureRes events) ! i)
          \<and> is_done (calls (requestChatStream_p3 env encode decode d0 msgs om futureRes events) ! j)
          \<longrightarrow> i < j)
   \<and> sorted_wrt (\<lambda>a b. length a \<le> length b)
        (message_texts (calls (requestChatStream_p3 env encode decode d0 msgs om futureRes events)))"
  using p3_partial_before_done [of _ env encode decode d0 msgs om futureRes events]
    p3_texts_sorted [of env encode decode d0 msgs om futureRes events]
  by blast

theorem requestChatStream_call_order_witness:
  "(2::nat) < length (calls (requestChatStream_p3 sample_env char_count plain_decode () [] None
        (FetchResolved ok_response) hello_events))
   \<and> (3::nat) < length (calls (requestChatStream_p3 sample_env char_count plain_decode () [] None
        (FetchResolved ok_response) hello_events))
   \<and> is_partial (calls (requestChatStream_p3 sample_env char_count plain_decode () [] None
        (FetchResolved ok_response) hello_events) ! 2)
   \<and> is_done (calls (requestChatStream_p3 sample_env char_count plain_decode () [] None
        (FetchResolved ok_response) hello_events) ! 3)
   \<and> message_texts (calls (requestChatStream_p3 sample_env char_count plain_decode () [] None
        (FetchResolved ok_response) hello_events)) = [''Hel'', ''Hello'', ''Hello'']"
  using requestChatStream_call_order [of sample_env char_count plain_decode "()" "[]" None
          "FetchResolved ok_response" hello_events]
  by (simp add: requestChatStream_p3_def ok_def ok_response_def plain_decode_def
        hello_events_def char_count_def Let_def message_texts_def)




section \<open>Properties of the context compression\<close>

text \<open>What a run of the summarization sends, returns and leaves in the heap.\<close>

lemma settle_cases:
  "unusable (net req) \<Longrightarrow>
     (\<exists>e. settle net req = Rejected e \<and> net req = NetworkFailure e)
     \<or> (\<exists>response. settle net req = Resolved response \<and> \<not> truthy_string (first_content response)
            \<and> is_answer (net req))"
  by (cases "net req") (auto simp: settle_def first_content_def truthy_string_def)

lemma p2_gated:
  "int (length (content (h message))) < compressMessageLengthThreshold (mask_modelConfig session) \<Longrightarrow>
     summarizeMessageIncrementally_p2 env net message session h
       = \<lparr>issued = [], returned = Resolved message, heap_after = h\<rparr>"
  by (simp add: summarizeMessageIncrementally_p2_def)

lemma p2_not_found:
  "indexOf (session_messages session) message = None \<Longrightarrow>
     summarizeMessageIncrementally_p2 env net message session h
       = \<lparr>issued = [], returned = Resolved message, heap_after = h\<rparr>"
  by (simp add: summarizeMessageIncrementally_p2_def Let_def)

lemma p2_issued:
  assumes "summaryLevel (mask_modelConfig session) = Incremental"
    and "\<not> int (length (content (h message))) < compressMessageLengthThreshold (mask_modelConfig session)"
    and "indexOf (session_messages session) message = Some i"
  shows "issued (summarizeMessageIncrementally_p2 env net message session h) =
     [makeRequestParam_p2 env
        (filter (\<lambda>message. role message = System) (mask_context session)
         @ [mkMessage System (SummarizeIncremental env) []]
         @ map (\<lambda>message. fst (getMessageOrSummary (h message) False))
             (take (i + 1) (session_messages session)))
        \<lparr>stream = Some False, overrideModel = Some ''gpt-4'',
         overrideTemperature = Some (7 / 10), overridePresencePenalty = Some 0\<rparr>]"
  using assms
  by (simp add: summarizeMessageIncrementally_p2_def requestChat_p2_def summaryOptions_def
        Let_def case_prod_unfold comp_def split: promise.split)

lemma p2_run_cases:
  "(issued (summarizeMessageIncrementally_p2 env net message session h) = [] \<longrightarrow>
      returned (summarizeMessageIncrementally_p2 env net message session h) = Resolved message
      \<and> heap_after (summarizeMessageIncrementally_p2 env net message session h) = h)
   \<and> (\<forall>req\<in>set (issued (summarizeMessageIncrementally_p2 env net message session h)).
        (case settle net req of
              Rejected e \<Rightarrow>
                returned (summarizeMessageIncrementally_p2 env net message session h) = Rejected e
                \<and> heap_after (summarizeMessageIncrementally_p2 env net message session h) = h
            | Resolved response \<Rightarrow>
                returned (summarizeMessageIncrementally_p2 env net message session h)
                  = Resolved message
                \<and> heap_after (summarizeMessageIncrementally_p2 env net message session h)
                  = (if truthy_string (first_content response)
                     then h(message := (h message)
                            \<lparr>summary := first_content response, useSummary := Some True,
                             nSummaryTokens := usage_completion_tokens response\<rparr>)
                     else h)))"
  by (simp add: summarizeMessageIncrementally_p2_def requestChat_p2_def Let_def
      split: promise.split option.split)

lemma p1_issued:
  assumes "indexOf (session_messages session) message = Some i"
  shows "issued (summarizeMessageIncrementally_p1 env net message session h) =
     [makeRequestParam_p1 env
        (filter (\<lambda>message. role message = System) (mask_context session)
         @ filter (\<lambda>message. \<not> truthy_bool (hidden message))
             (map h (take i (session_messages session)))
         @ [mkMessage System (SummarizeIncremental env) (date (h message))]
         @ [h message])
        \<lparr>stream = Some False, overrideModel = Some ''gpt-4'',
         overrideTemperature = Some (7 / 10), overridePresencePenalty = Some 0\<rparr>]"
  using assms
  by (simp add: summarizeMessageIncrementally_p1_def requestChat_p1_def summaryOptions_def
        Let_def split: promise.split)

lemma p1_run_cases:
  "heap_after (summarizeMessageIncrementally_p1 env net message session h) = h
   \<and> (issued (summarizeMessageIncrementally_p1 env net message session h) = [] \<longrightarrow>
      returned (summarizeMessageIncrementally_p1 env net message session h)
        = Resolved \<lparr>messageId = msg_id (h message), summary_text = None, summary_tokens = None\<rparr>)
   \<and> (\<forall>req\<in>set (issued (summarizeMessageIncrementally_p1 env net message session h)).
        (case settle net req of
              Rejected e \<Rightarrow>
                returned (summarizeMessageIncrementally_p1 env net message session h) = Rejected e
            | Resolved response \<Rightarrow>
                returned (summarizeMessageIncrementally_p1 env net message session h)
                  = Resolved \<lparr>messageId = msg_id (h message),
                               summary_text = first_content response,
                               summary_tokens = usage_completion_tokens response\<rparr>))"
  by (simp add: summarizeMessageIncrementally_p1_def requestChat_p1_def Let_def
      split: promise.split option.split)

lemma summarizeMessage_requests:
  "requests (summarizeMessage env net message session h)
     = issued (summarizeMessageIncrementally_p1 env net message session h)"
  by (simp add: summarizeMessage_def Let_def split: promise.split list.split)

lemma indexOf_Some:
  "indexOf xs x = Some i \<Longrightarrow> i < length xs \<and> xs ! i = x \<and> take (Suc i) xs = take i xs @ [x]"
proof (induction xs arbitrary: i)
  case Nil
  then show ?case by simp
next
  case (Cons y ys)
  show ?case
  proof (cases "y = x")
    case True
    with Cons.prems show ?thesis by simp
  next
    case False
    with Cons.prems obtain k where k: "indexOf ys x = Some k" "i = Suc k" by auto
    from Cons.IH [OF k(1)] k(2) show ?thesis by simp
  qed
qed

lemma p2_heap_kept:
  assumes "\<forall>req\<in>set (issued (summarizeMessageIncrementally_p2 env net message session h)).
             unusable (net req)"
  shows "heap_after (summarizeMessageIncrementally_p2 env net message session h) = h"
proof (cases "issued (summarizeMessageIncrementally_p2 env net message session h)")
  case Nil
  with p2_run_cases [of env net message session h] show ?thesis by simp
next
  case (Cons req reqs)
  with assms have u: "unusable (net req)" by simp
  from Cons p2_run_cases [of env net message session h]
  have c: "case settle net req of
              Rejected e \<Rightarrow>
                returned (summarizeMessageIncrementally_p2 env net message session h) = Rejected e
                \<and> heap_after (summarizeMessageIncrementally_p2 env net message session h) = h
            | Resolved response \<Rightarrow>
                returned (summarizeMessageIncrementally_p2 env net message session h)
                  = Resolved message
                \<and> heap_after (summarizeMessageIncrementally_p2 env net message session h)
                  = (if truthy_string (first_content response)
                     then h(message := (h message)
                            \<lparr>summary := first_content response, useSummary := Some True,
                             nSummaryTokens := usage_completion_tokens response\<rparr>)
                     else h)"
    by simp
  from settle_cases [of net req] u c show ?thesis by auto
qed

lemma p2_returned:
  assumes "req \<in> set (issued (summarizeMessageIncrementally_p2 env net message session h))"
  shows "(unusable (net req) \<and> is_answer (net req) \<longrightarrow>
            returned (summarizeMessageIncrementally_p2 env net message session h) = Resolved message)
       \<and> (net req = NetworkFailure e \<longrightarrow>
            returned (summarizeMessageIncrementally_p2 env net message session h) = Rejected e)"
  using p2_run_cases [of env net message session h] assms
  by (cases "net req") (auto simp: settle_def split: promise.splits)

lemma summarizeMessage_cases:
  assumes "req \<in> set (requests (summarizeMessage env net message session h))"
  shows "(unusable (net req) \<longrightarrow> heap_left (summarizeMessage env net message session h) = h)
       \<and> (unusable (net req) \<and> is_answer (net req) \<longrightarrow>
            unhandled (summarizeMessage env net message session h) = None)
       \<and> (net req = NetworkFailure e \<longrightarrow>
            unhandled (summarizeMessage env net message session h) = Some e)"
proof -
  from assms have req: "req \<in> set (issued (summarizeMessageIncrementally_p1 env net message session h))"
    by (simp add: summarizeMessage_requests)
  from p1_run_cases [of env net message session h] req
  have h: "heap_after (summarizeMessageIncrementally_p1 env net message session h) = h"
    and c: "case settle net req of
              Rejected e \<Rightarrow>
                returned (summarizeMessageIncrementally_p1 env net message session h) = Rejected e
            | Resolved response \<Rightarrow>
                returned (summarizeMessageIncrementally_p1 env net message session h)
                  = Resolved \<lparr>messageId = msg_id (h message),
                               summary_text = first_content response,
                               summary_tokens = usage_completion_tokens response\<rparr>"
    by simp_all
  show ?thesis
  proof (cases "net req")
    case (NetworkFailure e')
    with c h show ?thesis by (simp add: settle_def summarizeMessage_def Let_def)
  next
    case BodyNotJson
    with c h show ?thesis
      by (simp add: settle_def summarizeMessage_def Let_def first_content_def truthy_string_simps)
  next
    case (Json r)
    with c h show ?thesis
      by (simp add: settle_def summarizeMessage_def Let_def)
  qed
qed

lemma summarizeMessage_no_request:
  assumes "requests (summarizeMessage env net message session h) = []"
  shows "heap_left (summarizeMessage env net message session h) = h
     \<and> unhandled (summarizeMessage env net message session h) = None"
proof -
  from assms have "issued (summarizeMessageIncrementally_p1 env net message session h) = []"
    by (simp add: summarizeMessage_requests)
  with p1_run_cases [of env net message session h]
  have "heap_after (summarizeMessageIncrementally_p1 env net message session h) = h"
    "returned (summarizeMessageIncrementally_p1 env net message session h)
        = Resolved \<lparr>messageId = msg_id (h message), summary_text = None, summary_tokens = None\<rparr>"
    by simp_all
  then show ?thesis
    by (simp add: summarizeMessage_def Let_def truthy_string_simps)
qed

lemma fixtures_simps:
  "session_messages short_session = [0]" "mask_context short_session = []"
  "mask_modelConfig short_session = sample_config"
  "session_messages hidden_session = [0, 1]" "mask_context hidden_session = []"
  "summaryLevel (mask_modelConfig hidden_session) = Incremental"
  "compressMessageLengthThreshold (mask_modelConfig hidden_session) = 5"
  "compressMessageLengthThreshold sample_config = 100"
  "summaryLevel sample_config = Incremental"
  "INCREMENTAL_SUMMARY_PREFIX sample_env = ''[SUMMARY]''"
  "SummarizeIncremental sample_env = ''Summarize.''"
  "hidden_heap 0 = (mkMessage User ''secret'' [])\<lparr>hidden := Some True\<rparr>"
  "hidden_heap (Suc 0) = mkMessage User ''target text'' []"
  by (simp_all add: short_session_def hidden_session_def sample_config_def sample_env_def
        hidden_heap_def)

text \<open>
  Claim C3, as stated, fails in part 001, where both gates are commented out: for a
  message of two characters, under a threshold of 100, the sub-request is sent.
\<close>

theorem short_message_is_summarized:
  "int (length (content (short_heap 0)))
     < compressMessageLengthThreshold (mask_modelConfig short_session)
   \<and> map req_messages
        (issued (summarizeMessageIncrementally_p1 sample_env offline 0 short_session short_heap))
       = [[OutMessage System SWIFTY, OutMessage System ''Summarize.'', OutMessage User ''hi'']]"
  by (simp add: p1_issued [of short_session 0 0] req_messages_p1 fixtures_simps short_heap_def
        mkMessage_def truthy_bool_def)

text \<open>
  Claim C3, amended. In the iteration with the gates (part 002), a message whose content
  length is strictly below the configured threshold never causes a sub-request, whatever
  the level of the session: the promise is resolved with the message and the heap is
  untouched. The iteration of part 001 has no threshold: it sends one sub-request for
  every message that it finds in the session, whatever its length, and none for a message
  that is not in the session.
\<close>

theorem summarize_threshold_gate:
  "(int (length (content (h message))) < compressMessageLengthThreshold (mask_modelConfig session)
      \<longrightarrow> summarizeMessageIncrementally_p2 env net message session h
            = \<lparr>issued = [], returned = Resolved message, heap_after = h\<rparr>)
   \<and> (indexOf (session_messages session) message = Some i
      \<longrightarrow> length (issued (summarizeMessageIncrementally_p1 env net message session h)) = 1)
   \<and> (indexOf (session_messages session) message = None
      \<longrightarrow> issued (summarizeMessageIncrementally_p1 env net message session h) = [])"
  by (simp add: p2_gated p1_issued) (simp add: summarizeMessageIncrementally_p1_def)

theorem summarize_threshold_gate_witness:
  "int (length (content (short_heap 0)))
     < compressMessageLengthThreshold (mask_modelConfig short_session)
   \<and> indexOf (session_messages short_session) 0 = Some 0
   \<and> indexOf (session_messages short_session) 5 = None
   \<and> issued (summarizeMessageIncrementally_p2 sample_env offline 0 short_session short_heap) = []
   \<and> length (issued (summarizeMessageIncrementally_p1 sample_env offline 0 short_session
        short_heap)) = 1
   \<and> issued (summarizeMessageIncrementally_p1 sample_env offline 5 short_session short_heap) = []"
  using summarize_threshold_gate [of short_heap 0 short_session sample_env offline 0]
    summarize_threshold_gate [of short_heap 5 short_session sample_env offline 0]
  by (simp add: fixtures_simps short_heap_def mkMessage_def)

lemma render_after_getMessageOrSummary:
  "OutMessage (role (fst (getMessageOrSummary m False)))
     (if truthy_string (summary (fst (getMessageOrSummary m False)))
      then p @ '' '' @ template (summary (fst (getMessageOrSummary m False)))
      else content (fst (getMessageOrSummary m False)))
   = OutMessage (role m) (if truthy_string (summary m) then template (summary m) else content m)"
  by (simp add: getMessageOrSummary_def isMessageInSummaryMode_def mkMessage_def
        truthy_string_simps or_empty_Some or_empty_truthy Let_def)

lemma p2_sub_conversation:
  assumes "summaryLevel (mask_modelConfig session) = Incremental"
    and "compressMessageLengthThreshold (mask_modelConfig session) \<le> int (length (content (h message)))"
    and "indexOf (session_messages session) message = Some i"
  shows "map req_messages (issued (summarizeMessageIncrementally_p2 env net message session h))
        = [OutMessage System (content (summaryIntro env))
           # map (\<lambda>m. OutMessage (role m)
                    (if truthy_string (summary m)
                     then INCREMENTAL_SUMMARY_PREFIX env @ '' '' @ template (summary m)
                     else content m))
               (filter (\<lambda>m. role m = System) (mask_context session))
           @ [OutMessage System (SummarizeIncremental env)]
           @ map (\<lambda>r. OutMessage (role (h r))
                    (if truthy_string (summary (h r)) then template (summary (h r))
                     else content (h r)))
               (take (Suc i) (session_messages session))]"
proof -
  from assms(2) have b: "\<not> int (length (content (h message)))
      < compressMessageLengthThreshold (mask_modelConfig session)" by simp
  have instr: "OutMessage (role (mkMessage System (SummarizeIncremental env) []))
                 (if truthy_string (summary (mkMessage System (SummarizeIncremental env) []))
                  then INCREMENTAL_SUMMARY_PREFIX env @ '' '' @ template (summary (mkMessage System (SummarizeIncremental env) []))
                  else content (mkMessage System (SummarizeIncremental env) []))
               = OutMessage System (SummarizeIncremental env)"
    by (simp add: mkMessage_def truthy_string_simps)
  show ?thesis
    unfolding p2_issued [of session h message i env net, OF assms(1) b assms(3)] list.map req_messages_p2 map_append map_map
      comp_def render_after_getMessageOrSummary instr
    by simp
qed

lemma p1_sub_conversation:
  assumes "indexOf (session_messages session) message = Some i"
  shows "map req_messages (issued (summarizeMessageIncrementally_p1 env net message session h))
        = [OutMessage System SWIFTY
           # map (\<lambda>m. OutMessage (role m)
                    (if truthy_bool (useSummary m)
                     then INCREMENTAL_SUMMARY_PREFIX env @ '' '' @ template (summary m)
                     else content m))
               (filter (\<lambda>m. role m = System) (mask_context session)
                @ filter (\<lambda>m. \<not> truthy_bool (hidden m))
                    (map h (take i (session_messages session))))
           @ [OutMessage System (SummarizeIncremental env),
              OutMessage (role (h message))
                (if truthy_bool (useSummary (h message))
                 then INCREMENTAL_SUMMARY_PREFIX env @ '' '' @ template (summary (h message))
                 else content (h message))]]"
proof -
  have instr: "\<And>d. OutMessage (role (mkMessage System (SummarizeIncremental env) d))
                 (if truthy_bool (useSummary (mkMessage System (SummarizeIncremental env) d))
                  then INCREMENTAL_SUMMARY_PREFIX env @ '' '' @ template (summary (mkMessage System (SummarizeIncremental env) d))
                  else content (mkMessage System (SummarizeIncremental env) d))
               = OutMessage System (SummarizeIncremental env)"
    by (simp add: mkMessage_def truthy_bool_def)
  show ?thesis
    unfolding p1_issued [of session message i env net h, OF assms] list.map req_messages_p1 map_append instr
    by simp
qed

text \<open>
  Claim C8, as stated, fails in part 002, which does not read \<open>hidden\<close>: the hidden
  message \<open>secret\<close> before the target is part of the sub-request. The instruction also
  comes before the messages of the session there.
\<close>

theorem hidden_message_is_sent:
  "truthy_bool (hidden (hidden_heap 0))
   \<and> indexOf (session_messages hidden_session) 1 = Some 1
   \<and> map req_messages
        (issued (summarizeMessageIncrementally_p2 sample_env offline 1 hidden_session hidden_heap))
       = [[OutMessage System (content (summaryIntro sample_env)),
           OutMessage System ''Summarize.'', OutMessage User ''secret'',
           OutMessage User ''target text'']]"
  by (simp add: p2_issued [of hidden_session hidden_heap "Suc 0" "Suc 0"] req_messages_p2 fixtures_simps
        mkMessage_def truthy_bool_def getMessageOrSummary_def isMessageInSummaryMode_def
        truthy_string_simps or_empty_Some Let_def)

text \<open>
  Claim C8, amended. For a target found in the session at position \<open>i\<close>:

  \<^item> part 002 sends a sub-request when the level is \<open>Incremental\<close> and the content of the
    target reaches the threshold; after the assembler's introduction it consists of the
    system messages of the persistent context, then the instruction, then every message
    of the session up to and including the target, hidden or not, each as its summary
    when it has a non-empty one and as its content otherwise;
  \<^item> part 001 always sends a sub-request; after the assembler's fixed system message it
    consists of the system messages of the persistent context, then the messages before
    the target that are not hidden, then the instruction, then the target itself (hidden
    or not), each as marker and summary when its flag \<open>useSummary\<close> is set and as its
    content otherwise.
\<close>

theorem summarize_sub_conversation:
  "(summaryLevel (mask_modelConfig session) = Incremental
      \<and> compressMessageLengthThreshold (mask_modelConfig session)
          \<le> int (length (content (h message)))
      \<and> indexOf (session_messages session) message = Some i
    \<longrightarrow> take (Suc i) (session_messages session) = take i (session_messages session) @ [message]
      \<and> map req_messages (issued (summarizeMessageIncrementally_p2 env net message session h))
        = [OutMessage System (content (summaryIntro env))
           # map (\<lambda>m. OutMessage (role m)
                    (if truthy_string (summary m)
                     then INCREMENTAL_SUMMARY_PREFIX env @ '' '' @ template (summary m)
                     else content m))
               (filter (\<lambda>m. role m = System) (mask_context session))
           @ [OutMessage System (SummarizeIncremental env)]
           @ map (\<lambda>r. OutMessage (role (h r))
                    (if truthy_string (summary (h r)) then template (summary (h r))
                     else content (h r)))
               (take (Suc i) (session_messages session))])
   \<and> (indexOf (session_messages session) message = Some i
    \<longrightarrow> map req_messages (issued (summarizeMessageIncrementally_p1 env net message session h))
        = [OutMessage System SWIFTY
           # map (\<lambda>m. OutMessage (role m)
                    (if truthy_bool (useSummary m)
                     then INCREMENTAL_SUMMARY_PREFIX env @ '' '' @ template (summary m)
                     else content m))
               (filter (\<lambda>m. role m = System) (mask_context session)
                @ filter (\<lambda>m. \<not> truthy_bool (hidden m))
                    (map h (take i (session_messages session))))
           @ [OutMessage System (SummarizeIncremental env),
              OutMessage (role (h message))
                (if truthy_bool (useSummary (h message))
                 then INCREMENTAL_SUMMARY_PREFIX env @ '' '' @ template (summary (h message))
                 else content (h message))]])"
  using indexOf_Some [of "session_messages session" message i]
    p2_sub_conversation [of session h message i env net]
    p1_sub_conversation [of session message i env net h]
  by blast

theorem summarize_sub_conversation_witness:
  "summaryLevel (mask_modelConfig hidden_session) = Incremental
   \<and> compressMessageLengthThreshold (mask_modelConfig hidden_session)
       \<le> int (length (content (hidden_heap 1)))
   \<and> indexOf (session_messages hidden_session) 1 = Some 1
   \<and> map req_messages
        (issued (summarizeMessageIncrementally_p1 sample_env offline 1 hidden_session hidden_heap))
       = [[OutMessage System SWIFTY, OutMessage System ''Summarize.'',
           OutMessage User ''target text'']]"
  using summarize_sub_conversation [of hidden_session hidden_heap 1 1 sample_env offline]
  by (simp add: fixtures_simps mkMessage_def truthy_bool_def)

text \<open>
  Claim C9, as stated, fails in its last part when the sub-request fails in the network:
  \<open>requestChat\<close> awaits \<open>fetch\<close> outside its \<open>try\<close> block and
  \<open>summarizeMessageIncrementally\<close> attaches no rejection handler, so the promise it
  returns in part 002 is rejected with the network's error.
\<close>

theorem network_failure_reaches_caller:
  "map offline
     (issued (summarizeMessageIncrementally_p2 sample_env offline 1 hidden_session hidden_heap))
     = [NetworkFailure (PlatformError ''offline'')]
   \<and> returned (summarizeMessageIncrementally_p2 sample_env offline 1 hidden_session hidden_heap)
       = Rejected (PlatformError ''offline'')"
proof -
  have i: "issued (summarizeMessageIncrementally_p2 sample_env offline 1 hidden_session hidden_heap)
            \<noteq> []"
    by (simp add: p2_issued [of hidden_session hidden_heap "Suc 0" "Suc 0"] fixtures_simps
          mkMessage_def)
  then obtain req reqs
    where r: "issued (summarizeMessageIncrementally_p2 sample_env offline 1 hidden_session
                hidden_heap) = req # reqs"
    by (cases "issued (summarizeMessageIncrementally_p2 sample_env offline 1 hidden_session
                hidden_heap)") auto
  have l: "length (issued (summarizeMessageIncrementally_p2 sample_env offline 1 hidden_session
                hidden_heap)) = 1"
    by (simp add: p2_issued [of hidden_session hidden_heap "Suc 0" "Suc 0"] fixtures_simps
          mkMessage_def)
  with r have "reqs = []" by simp
  with r p2_returned [of req sample_env offline 1 hidden_session hidden_heap
         "PlatformError ''offline''"]
  show ?thesis by (simp add: offline_def)
qed

text \<open>
  Claim C9, amended. If the sub-request fails or brings no content (a rejected \<open>fetch\<close>,
  a body that does not parse, a first choice without content or with empty content), the
  heap is left as it was, in part 002 and through \<open>summarizeMessage\<close> in part 001: the
  fields \<open>summary\<close>, \<open>useSummary\<close> and \<open>nSummaryTokens\<close> of the target, and of every
  other message, keep their values. When the network has answered, the failure is
  absorbed: the promise of part 002 is resolved with the message, and \<open>summarizeMessage\<close>
  leaves no rejection behind. When \<open>fetch\<close> is rejected, the promise of part 002 is
  rejected with that error, and in part 001 the rejection stays unhandled.
\<close>

theorem summarize_failure_keeps_message:
  "((\<forall>req\<in>set (issued (summarizeMessageIncrementally_p2 env net message session h)).
        unusable (net req))
      \<longrightarrow> heap_after (summarizeMessageIncrementally_p2 env net message session h) = h)
   \<and> ((\<forall>req\<in>set (requests (summarizeMessage env net message session h)). unusable (net req))
      \<longrightarrow> heap_left (summarizeMessage env net message session h) = h)
   \<and> (\<forall>req\<in>set (issued (summarizeMessageIncrementally_p2 env net message session h)).
        (unusable (net req) \<and> is_answer (net req)
           \<longrightarrow> returned (summarizeMessageIncrementally_p2 env net message session h)
                 = Resolved message)
        \<and> (\<forall>e. net req = NetworkFailure e
           \<longrightarrow> returned (summarizeMessageIncrementally_p2 env net message session h)
                 = Rejected e))
   \<and> (\<forall>req\<in>set (requests (summarizeMessage env net message session h)).
        (unusable (net req) \<and> is_answer (net req)
           \<longrightarrow> unhandled (summarizeMessage env net message session h) = None)
        \<and> (\<forall>e. net req = NetworkFailure e
           \<longrightarrow> unhandled (summarizeMessage env net message session h) = Some e))"
proof (intro conjI impI ballI allI)
  assume "\<forall>req\<in>set (issued (summarizeMessageIncrementally_p2 env net message session h)).
            unusable (net req)"
  then show "heap_after (summarizeMessageIncrementally_p2 env net message session h) = h"
    by (rule p2_heap_kept)
next
  assume a: "\<forall>req\<in>set (requests (summarizeMessage env net message session h)). unusable (net req)"
  show "heap_left (summarizeMessage env net message session h) = h"
  proof (cases "requests (summarizeMessage env net message session h)")
    case Nil
    then show ?thesis using summarizeMessage_no_request by blast
  next
    case (Cons req reqs)
    with a summarizeMessage_cases [of req env net message session h] show ?thesis by simp
  qed
next
  fix req
  assume "req \<in> set (issued (summarizeMessageIncrementally_p2 env net message session h))"
    and "unusable (net req) \<and> is_answer (net req)"
  with p2_returned [of req env net message session h]
  show "returned (summarizeMessageIncrementally_p2 env net message session h) = Resolved message"
    by blast
next
  fix req e
  assume "req \<in> set (issued (summarizeMessageIncrementally_p2 env net message session h))"
    and "net req = NetworkFailure e"
  with p2_returned [of req env net message session h e]
  show "returned (summarizeMessageIncrementally_p2 env net message session h) = Rejected e"
    by blast
next
  fix req
  assume "req \<in> set (requests (summarizeMessage env net message session h))"
    and "unusable (net req) \<and> is_answer (net req)"
  with summarizeMessage_cases [of req env net message session h]
  show "unhandled (summarizeMessage env net message session h) = None"
    by blast
next
  fix req e
  assume "req \<in> set (requests (summarizeMessage env net message session h))"
    and "net req = NetworkFailure e"
  with summarizeMessage_cases [of req env net message session h e]
  show "unhandled (summarizeMessage env net message session h) = Some e"
    by blast
qed

theorem summarize_failure_keeps_message_witness:
  "map (\<lambda>req. unusable (no_content req) \<and> is_answer (no_content req))
     (issued (summarizeMessageIncrementally_p2 sample_env no_content 1 hidden_session
        hidden_heap)) = [True]
   \<and> map (\<lambda>req. unusable (no_content req) \<and> is_answer (no_content req))
     (requests (summarizeMessage sample_env no_content 0 short_session short_heap)) = [True]
   \<and> heap_after (summarizeMessageIncrementally_p2 sample_env no_content 1 hidden_session
        hidden_heap) = hidden_heap
   \<and> returned (summarizeMessageIncrementally_p2 sample_env no_content 1 hidden_session
        hidden_heap) = Resolved 1
   \<and> heap_left (summarizeMessage sample_env no_content 0 short_session short_heap) = short_heap
   \<and> unhandled (summarizeMessage sample_env no_content 0 short_session short_heap) = None
   \<and> map offline (requests (summarizeMessage sample_env offline 0 short_session short_heap))
       = [NetworkFailure (PlatformError ''offline'')]
   \<and> unhandled (summarizeMessage sample_env offline 0 short_session short_heap)
       = Some (PlatformError ''offline'')
   \<and> heap_left (summarizeMessage sample_env offline 0 short_session short_heap) = short_heap"
proof -
  have u: "\<And>req. unusable (no_content req) \<and> is_answer (no_content req)"
    by (simp add: no_content_def first_content_def truthy_string_simps)
  have l2: "length (issued (summarizeMessageIncrementally_p2 sample_env no_content 1 hidden_session
        hidden_heap)) = 1"
    by (simp add: p2_issued [of hidden_session hidden_heap "Suc 0" "Suc 0"] fixtures_simps
          mkMessage_def)
  have l1: "length (requests (summarizeMessage sample_env no_content 0 short_session short_heap)) = 1"
    by (simp add: summarizeMessage_requests p1_issued [of short_session 0 0] fixtures_simps)
  from l2 obtain req2
    where r2: "issued (summarizeMessageIncrementally_p2 sample_env no_content 1 hidden_session
        hidden_heap) = [req2]"
    by (cases "issued (summarizeMessageIncrementally_p2 sample_env no_content 1 hidden_session
        hidden_heap)") auto
  from l1 obtain req1
    where r1: "requests (summarizeMessage sample_env no_content 0 short_session short_heap) = [req1]"
    by (cases "requests (summarizeMessage sample_env no_content 0 short_session short_heap)") auto
  have l0: "length (requests (summarizeMessage sample_env offline 0 short_session short_heap)) = 1"
    by (simp add: summarizeMessage_requests p1_issued [of short_session 0 0] fixtures_simps)
  from l0 obtain req0
    where r0: "requests (summarizeMessage sample_env offline 0 short_session short_heap) = [req0]"
    by (cases "requests (summarizeMessage sample_env offline 0 short_session short_heap)") auto
  have o: "\<And>req. offline req = NetworkFailure (PlatformError ''offline'') \<and> unusable (offline req)"
    by (simp add: offline_def)
  from summarize_failure_keeps_message [of sample_env no_content 1 hidden_session hidden_heap]
    summarize_failure_keeps_message [of sample_env no_content 0 short_session short_heap]
    summarize_failure_keeps_message [of sample_env offline 0 short_session short_heap]
    u o l1 l2 r0 r1 r2
  show ?thesis by simp
qed

end
